theory Spec2Isabelle
  imports Complex_Main "HOL-Library.Monad_Syntax"
begin

section \<open>JavaScript numbers\<close>

text \<open>
  The script computes durations, ages and the duration accumulator in JavaScript numbers.
  A number is modelled as NaN, an infinity, or a finite value carried as an exact rational:
  the special values and the comparisons follow IEEE 754 (every comparison with NaN is
  false), rounding of finite results and the sign of zero are not modelled.
\<close>

datatype jsnum = NaN | NegInf | Fin rat | PosInf

fun num_lt :: "jsnum \<Rightarrow> jsnum \<Rightarrow> bool" where
  "num_lt NaN b = False"
| "num_lt NegInf b = (case b of Fin y \<Rightarrow> True | PosInf \<Rightarrow> True | _ \<Rightarrow> False)"
| "num_lt (Fin x) b = (case b of Fin y \<Rightarrow> x < y | PosInf \<Rightarrow> True | _ \<Rightarrow> False)"
| "num_lt PosInf b = False"

definition num_gt :: "jsnum \<Rightarrow> jsnum \<Rightarrow> bool" where
  "num_gt a b = num_lt b a"

definition num_le :: "jsnum \<Rightarrow> jsnum \<Rightarrow> bool" where
  "num_le a b = (a \<noteq> NaN \<and> b \<noteq> NaN \<and> (a = b \<or> num_lt a b))"

definition num_ge :: "jsnum \<Rightarrow> jsnum \<Rightarrow> bool" where
  "num_ge a b = num_le b a"

fun num_neg :: "jsnum \<Rightarrow> jsnum" where
  "num_neg NaN = NaN"
| "num_neg NegInf = PosInf"
| "num_neg (Fin x) = Fin (- x)"
| "num_neg PosInf = NegInf"

fun num_add :: "jsnum \<Rightarrow> jsnum \<Rightarrow> jsnum" where
  "num_add NaN b = NaN"
| "num_add a NaN = NaN"
| "num_add (Fin x) (Fin y) = Fin (x + y)"
| "num_add (Fin x) b = b"
| "num_add a (Fin y) = a"
| "num_add a b = (if a = b then a else NaN)"

definition num_sub :: "jsnum \<Rightarrow> jsnum \<Rightarrow> jsnum" where
  "num_sub a b = num_add a (num_neg b)"

text \<open>Multiplication and division by a positive finite literal (\<open>x * 60\<close>, \<open>x / 60\<close>).\<close>

fun num_times :: "jsnum \<Rightarrow> rat \<Rightarrow> jsnum" where
  "num_times (Fin x) k = Fin (x * k)"
| "num_times a k = a"

fun num_div :: "jsnum \<Rightarrow> rat \<Rightarrow> jsnum" where
  "num_div (Fin x) k = Fin (x / k)"
| "num_div a k = a"

section \<open>JavaScript values and the built-ins the script calls\<close>

text \<open>
  The values \<open>parseDuration\<close> can be handed. \<open>JObject\<close> stands for a plain object
  (such as the node the XML reader builds for an element with attributes): it is truthy,
  converts to the number NaN and has no \<open>split\<close> method. A string is a list of code
  units below 256.
\<close>

datatype jsval = JUndefined | JNull | JBool bool | JNumber jsnum | JString string | JObject

datatype error = TypeError

fun truthy :: "jsval \<Rightarrow> bool" where
  "truthy JUndefined = False"
| "truthy JNull = False"
| "truthy (JBool b) = b"
| "truthy (JNumber n) = (n \<noteq> NaN \<and> n \<noteq> Fin 0)"
| "truthy (JString s) = (s \<noteq> [])"
| "truthy JObject = True"

text \<open>White space of the string-to-number grammar: TAB, LF, VT, FF, CR, SP, NBSP.\<close>

definition is_ws :: "char \<Rightarrow> bool" where
  "is_ws c = (c \<in> set [CHR 0x09, CHR 0x0A, CHR 0x0B, CHR 0x0C, CHR 0x0D, CHR 0x20, CHR 0xA0])"

definition trim :: "string \<Rightarrow> string" where
  "trim s = rev (dropWhile is_ws (rev (dropWhile is_ws s)))"

definition is_digit :: "char \<Rightarrow> bool" where
  "is_digit c = (48 \<le> (of_char c :: nat) \<and> (of_char c :: nat) \<le> 57)"

text \<open>The value of a character as a digit: \<open>0-9\<close>, \<open>a-z\<close> and \<open>A-Z\<close> for 10 to 35.\<close>

definition char_val :: "char \<Rightarrow> nat option" where
  "char_val c =
     (let n = (of_char c :: nat) in
      if 48 \<le> n \<and> n \<le> 57 then Some (n - 48)
      else if 97 \<le> n \<and> n \<le> 122 then Some (n - 87)
      else if 65 \<le> n \<and> n \<le> 90 then Some (n - 55)
      else None)"

definition is_radix_digit :: "nat \<Rightarrow> char \<Rightarrow> bool" where
  "is_radix_digit r c = (case char_val c of None \<Rightarrow> False | Some v \<Rightarrow> v < r)"

definition digits_val :: "nat \<Rightarrow> string \<Rightarrow> nat" where
  "digits_val r ds = foldl (\<lambda>a c. a * r + (case char_val c of None \<Rightarrow> 0 | Some v \<Rightarrow> v)) 0 ds"

text \<open>A leading sign: whether it is \<open>-\<close>, and the rest of the string.\<close>

definition strip_sign :: "string \<Rightarrow> bool \<times> string" where
  "strip_sign s =
     (if s \<noteq> [] \<and> hd s = CHR ''-'' then (True, tl s)
      else if s \<noteq> [] \<and> hd s = CHR ''+'' then (False, tl s)
      else (False, s))"

text \<open>Whether the string starts with \<open>0\<close> followed by one of two letters (\<open>0x\<close>, \<open>0X\<close>).\<close>

definition radix_prefix :: "char \<Rightarrow> char \<Rightarrow> string \<Rightarrow> bool" where
  "radix_prefix lo up s =
     (case s of a # b # r \<Rightarrow> a = CHR ''0'' \<and> (b = lo \<or> b = up) | _ \<Rightarrow> False)"

text \<open>ExponentPart of a decimal literal, or nothing: the exponent, \<open>None\<close> if malformed.\<close>

definition exponent_part :: "string \<Rightarrow> int option" where
  "exponent_part s =
     (if s = [] then Some 0
      else if hd s = CHR ''e'' \<or> hd s = CHR ''E'' then
        (let (neg, ds) = strip_sign (tl s) in
         if ds \<noteq> [] \<and> list_all is_digit ds
         then Some (if neg then - int (digits_val 10 ds) else int (digits_val 10 ds))
         else None)
      else None)"

text \<open>StrUnsignedDecimalLiteral: \<open>Infinity\<close>, or digits with an optional fraction and exponent.\<close>

definition unsigned_decimal :: "string \<Rightarrow> jsnum" where
  "unsigned_decimal s =
     (if s = ''Infinity'' then PosInf
      else
        (let ip = takeWhile is_digit s;
             r1 = dropWhile is_digit s;
             has_dot = (r1 \<noteq> [] \<and> hd r1 = CHR ''.'');
             fp = (if has_dot then takeWhile is_digit (tl r1) else []);
             r2 = (if has_dot then dropWhile is_digit (tl r1) else r1)
         in if ip = [] \<and> fp = [] then NaN
            else (case exponent_part r2 of
                    None \<Rightarrow> NaN
                  | Some e \<Rightarrow>
                      Fin ((of_nat (digits_val 10 ip)
                            + of_nat (digits_val 10 fp) / 10 ^ length fp) * 10 powi e))))"

definition nondecimal :: "nat \<Rightarrow> string \<Rightarrow> jsnum" where
  "nondecimal r ds =
     (if ds \<noteq> [] \<and> list_all (is_radix_digit r) ds then Fin (of_nat (digits_val r ds)) else NaN)"

text \<open>
  \<open>Number(s)\<close> on a string (StringToNumber): white space is trimmed, the empty string is
  0, then a hexadecimal, octal or binary integer literal without sign, or a signed decimal
  literal; anything else is NaN.
\<close>

definition str_to_number :: "string \<Rightarrow> jsnum" where
  "str_to_number s =
     (let t = trim s in
      if t = [] then Fin 0
      else if radix_prefix CHR ''x'' CHR ''X'' t then nondecimal 16 (drop 2 t)
      else if radix_prefix CHR ''o'' CHR ''O'' t then nondecimal 8 (drop 2 t)
      else if radix_prefix CHR ''b'' CHR ''B'' t then nondecimal 2 (drop 2 t)
      else (let (neg, u) = strip_sign t in
            if neg then num_neg (unsigned_decimal u) else unsigned_decimal u))"

text \<open>
  \<open>parseInt(s)\<close> with no radix: leading white space and a sign are dropped, \<open>0x\<close> selects
  radix 16, and the longest prefix of digits is the value; NaN when that prefix is empty.
\<close>

definition parseInt :: "string \<Rightarrow> jsnum" where
  "parseInt s =
     (let (neg, u) = strip_sign (dropWhile is_ws s);
          hex = radix_prefix CHR ''x'' CHR ''X'' u;
          r = (if hex then 16 else 10);
          z = takeWhile (is_radix_digit r) (if hex then drop 2 u else u)
      in if z = [] then NaN
         else Fin (if neg then - of_nat (digits_val r z) else of_nat (digits_val r z)))"

text \<open>\<open>s.split(c)\<close> for a one-character separator: always at least one part.\<close>

fun split_on :: "char \<Rightarrow> string \<Rightarrow> string list" where
  "split_on c [] = [[]]"
| "split_on c (x # xs) =
     (if x = c then [] # split_on c xs
      else (case split_on c xs of [] \<Rightarrow> [[x]] | p # ps \<Rightarrow> (x # p) # ps))"

text \<open>ToNumber and ToString, as the global \<open>isNaN\<close> and \<open>parseInt\<close> apply them.\<close>

fun to_number :: "jsval \<Rightarrow> jsnum" where
  "to_number JUndefined = NaN"
| "to_number JNull = Fin 0"
| "to_number (JBool b) = Fin (if b then 1 else 0)"
| "to_number (JNumber n) = n"
| "to_number (JString s) = str_to_number s"
| "to_number JObject = NaN"

definition isNaN :: "jsval \<Rightarrow> bool" where
  "isNaN v = (to_number v = NaN)"

text \<open>\<open>s.toLowerCase()\<close> on code units below 256, and \<open>text.includes(kw)\<close>.\<close>

definition lower_char :: "char \<Rightarrow> char" where
  "lower_char c =
     (let n = (of_char c :: nat) in
      if (65 \<le> n \<and> n \<le> 90) \<or> (192 \<le> n \<and> n \<le> 222 \<and> n \<noteq> 215) then char_of (n + 32) else c)"

definition toLowerCase :: "string \<Rightarrow> string" where
  "toLowerCase s = map lower_char s"

fun starts_with :: "string \<Rightarrow> string \<Rightarrow> bool" where
  "starts_with s [] = True"
| "starts_with [] (k # ks) = False"
| "starts_with (c # cs) (k # ks) = (c = k \<and> starts_with cs ks)"

fun str_includes :: "string \<Rightarrow> string \<Rightarrow> bool" where
  "str_includes [] kw = (kw = [])"
| "str_includes (c # cs) kw = (starts_with (c # cs) kw \<or> str_includes cs kw)"

section \<open>parseDuration (lines 27-36)\<close>

text \<open>
  The tests in source order: falsy, \<open>typeof duration === 'number'\<close>, \<open>!isNaN(duration)\<close>,
  then \<open>duration.split(':').map(Number)\<close>, which throws a TypeError on a value that has
  no \<open>split\<close>. \<open>parseInt\<close> is handed the value as a string: \<open>true\<close> converts to the number
  1 and to the string \<open>true\<close>; \<open>JObject\<close> converts to NaN and reaches the \<open>split\<close>. The
  last case is \<open>undefined\<close> and \<open>null\<close>, which are falsy and return at line 28.
\<close>

definition parseDuration :: "jsval \<Rightarrow> error + jsnum" where
  "parseDuration duration =
     (if \<not> truthy duration then Inr (Fin 0)
      else case duration of
        JNumber n \<Rightarrow> Inr (num_div n 60)
      | JString s \<Rightarrow>
          (if \<not> isNaN (JString s) then Inr (num_div (parseInt s) 60)
           else (let parts = map str_to_number (split_on CHR '':'' s) in
                 if length parts = 3
                   then Inr (num_add (num_add (num_times (parts ! 0) 60) (parts ! 1))
                                     (num_div (parts ! 2) 60))
                 else if length parts = 2
                   then Inr (num_add (parts ! 0) (num_div (parts ! 1) 60))
                 else Inr (Fin 0)))
      | JBool b \<Rightarrow>
          (if \<not> isNaN (JBool b) then Inr (num_div (parseInt (if b then ''true'' else ''false'')) 60)
           else Inl TypeError)
      | JObject \<Rightarrow>
          (if \<not> isNaN JObject then Inr (num_div (parseInt ''[object Object]'') 60)
           else Inl TypeError)
      | _ \<Rightarrow> Inr (Fin 0))"

section \<open>Episode records\<close>

text \<open>
  The object built for each feed item (lines 78-88). \<open>title\<close>, \<open>link\<close>, \<open>guid\<close> and
  \<open>audio_url\<close> are copied from the parsed feed and may be \<open>undefined\<close> (\<open>None\<close>);
  \<open>pubDate\<close> is the time value of \<open>new Date(item.pubDate)\<close> in milliseconds, NaN for an
  invalid date; \<open>duration\<close> is in minutes.
\<close>

record item =
  title :: "string option"
  link :: "string option"
  guid :: "string option"
  audio_url :: "string option"
  pubDate :: jsnum
  duration :: jsnum
  contentSnippet :: string
  feedName :: string
  tags :: "string list"

text \<open>\<open>{ ...item, score }\<close> (line 140).\<close>

record scored = item +
  score :: int

text \<open>
  \<open>selected\<close> holds the news briefing, which has no \<open>score\<close> property, and scored items.
\<close>

datatype entry = Briefing item | Scored scored

fun entry_title :: "entry \<Rightarrow> string option" where
  "entry_title (Briefing b) = title b"
| "entry_title (Scored s) = title s"

section \<open>Configuration and the rules object (lines 61-69)\<close>

text \<open>
  \<open>config.rules\<close> is an object shared by reference, and each of its keyword lists is an
  array object. The store maps addresses to array contents and to the fields of a rules
  object; \<open>next_addr\<close> is the allocator's next free address.
\<close>

type_synonym addr = nat

record rules_obj =
  boost_keywords :: addr
  boost_guests :: addr
  block_keywords :: addr
  datenight_keywords :: addr
  datenight_block :: addr

record heap =
  arrays :: "addr \<rightharpoonup> string list"
  objects :: "addr \<rightharpoonup> rules_obj"
  next_addr :: addr

record feedConfig =
  name :: string
  url :: string
  fc_tags :: "string list option"

record config =
  target_duration_minutes :: "rat option"
  rules :: addr
  feeds :: "feedConfig list"

text \<open>An array literal allocates a new array object.\<close>

definition new_array :: "string list \<Rightarrow> heap \<Rightarrow> addr \<times> heap" where
  "new_array xs h =
     (next_addr h, h\<lparr>arrays := (arrays h)(next_addr h \<mapsto> xs), next_addr := Suc (next_addr h)\<rparr>)"

text \<open>
  Lines 63-69: \<open>rules\<close> is the reference \<open>config.rules\<close> itself. On a Thursday each of the
  two assignments reads two arrays through the object, builds a new array with the spread
  literal and stores its address in the object's field. \<open>None\<close> is the TypeError of reading
  through a reference that is not an object or spreading a value that is not an array.
\<close>

definition build_rules :: "bool \<Rightarrow> config \<Rightarrow> heap \<Rightarrow> (addr \<times> heap) option" where
  "build_rules isThursday cfg h =
     (if isThursday then
        do {
          r0 \<leftarrow> objects h (rules cfg);
          boost \<leftarrow> arrays h (boost_keywords r0);
          dn_boost \<leftarrow> arrays h (datenight_keywords r0);
          let (a1, h1) = new_array (boost @ dn_boost) h;
          let h2 = h1\<lparr>objects := (objects h1)(rules cfg \<mapsto> r0\<lparr>boost_keywords := a1\<rparr>)\<rparr>;
          r1 \<leftarrow> objects h2 (rules cfg);
          block \<leftarrow> arrays h2 (block_keywords r1);
          dn_block \<leftarrow> arrays h2 (datenight_block r1);
          let (a2, h3) = new_array (block @ dn_block) h2;
          Some (rules cfg, h3\<lparr>objects := (objects h3)(rules cfg \<mapsto> r1\<lparr>block_keywords := a2\<rparr>)\<rparr>)
        }
      else Some (rules cfg, h))"

text \<open>The three lists the scorer reads through \<open>rules\<close> (lines 112-114).\<close>

definition read_rules :: "heap \<Rightarrow> addr \<Rightarrow> (string list \<times> string list \<times> string list) option" where
  "read_rules h r =
     do {
       ro \<leftarrow> objects h r;
       boost \<leftarrow> arrays h (boost_keywords ro);
       guests \<leftarrow> arrays h (boost_guests ro);
       block \<leftarrow> arrays h (block_keywords ro);
       Some (boost, guests, block)
     }"

text \<open>
  A store as the script can meet it: every array and every array a rules object refers to
  lies below the allocator's next address, so a new array never takes the place of one.
\<close>

definition heap_wf :: "heap \<Rightarrow> bool" where
  "heap_wf h =
     ((\<forall>a xs. arrays h a = Some xs \<longrightarrow> a < next_addr h)
      \<and> (\<forall>a ro. objects h a = Some ro \<longrightarrow>
            boost_keywords ro < next_addr h \<and> boost_guests ro < next_addr h
            \<and> block_keywords ro < next_addr h \<and> datenight_keywords ro < next_addr h
            \<and> datenight_block ro < next_addr h))"

text \<open>
  The keyword lists read through \<open>config.rules\<close> once lines 63-69 have run: what a later
  reader of the configuration object sees.
\<close>

definition config_lists_after ::
  "bool \<Rightarrow> config \<Rightarrow> heap \<Rightarrow> (string list \<times> string list \<times> string list) option" where
  "config_lists_after isThursday cfg h =
     (case build_rules isThursday cfg h of
        None \<Rightarrow> None
      | Some (r, h') \<Rightarrow> read_rules h' (rules cfg))"

section \<open>Fetching (lines 75-103)\<close>

text \<open>
  An item as the feed reader delivers it: the fields the script reads. \<open>r_enclosure_url\<close>
  is \<open>item.enclosure?.url\<close>, \<open>r_itunes_duration\<close> is \<open>item.itunes?.duration\<close>, and
  \<open>r_pubDate\<close> is the time value of \<open>new Date(item.pubDate)\<close>.
\<close>

record raw_item =
  r_title :: "string option"
  r_link :: "string option"
  r_guid :: "string option"
  r_enclosure_url :: "string option"
  r_pubDate :: jsnum
  r_duration :: jsval
  r_itunes_duration :: jsval
  r_contentSnippet :: "string option"
  r_content :: "string option"

text \<open>\<open>a || b || ''\<close> on optional strings: the first that is neither undefined nor empty.\<close>

definition or_string :: "string option \<Rightarrow> string option \<Rightarrow> string" where
  "or_string a b =
     (case a of Some x \<Rightarrow> (if x \<noteq> [] then x else (case b of Some y \<Rightarrow> y | None \<Rightarrow> []))
      | None \<Rightarrow> (case b of Some y \<Rightarrow> y | None \<Rightarrow> []))"

text \<open>The object literal of lines 78-88 for one item; the error is \<open>parseDuration\<close>'s.\<close>

definition convert :: "feedConfig \<Rightarrow> raw_item \<Rightarrow> error + item" where
  "convert fc r =
     (case parseDuration (if truthy (r_duration r) then r_duration r else r_itunes_duration r) of
        Inl e \<Rightarrow> Inl e
      | Inr d \<Rightarrow>
          Inr \<lparr>title = r_title r, link = r_link r, guid = r_guid r,
               audio_url = r_enclosure_url r, pubDate = r_pubDate r, duration = d,
               contentSnippet = or_string (r_contentSnippet r) (r_content r),
               feedName = name fc,
               tags = (case fc_tags fc of Some ts \<Rightarrow> ts | None \<Rightarrow> [])\<rparr>)"

text \<open>\<open>.map(...)\<close> over the items: the first exception leaves the \<open>map\<close>.\<close>

fun convert_all :: "feedConfig \<Rightarrow> raw_item list \<Rightarrow> error + item list" where
  "convert_all fc [] = Inr []"
| "convert_all fc (r # rs) =
     (case convert fc r of
        Inl e \<Rightarrow> Inl e
      | Inr i \<Rightarrow> (case convert_all fc rs of Inl e \<Rightarrow> Inl e | Inr is \<Rightarrow> Inr (i # is)))"

definition has_audio :: "item \<Rightarrow> bool" where
  "has_audio i = (case audio_url i of Some u \<Rightarrow> u \<noteq> [] | None \<Rightarrow> False)"

text \<open>\<open>items\<close> of lines 78-88: \<open>feed.items.slice(0, 5).map(...).filter(item => item.audio_url)\<close>.\<close>

definition feed_items :: "feedConfig \<Rightarrow> raw_item list \<Rightarrow> error + item list" where
  "feed_items fc raw =
     (case convert_all fc (take 5 raw) of
        Inl e \<Rightarrow> Inl e
      | Inr is \<Rightarrow> Inr (filter has_audio is))"

text \<open>The test of line 91, on a feed whose \<open>tags\<close> is an array.\<close>

definition is_briefing_feed :: "string list \<Rightarrow> bool" where
  "is_briefing_feed ts = (''news'' \<in> set ts \<and> ''briefing'' \<in> set ts)"

text \<open>Line 93: the new briefing replaces the holder if there is none or it is strictly later.\<close>

definition keep_latest :: "item option \<Rightarrow> item \<Rightarrow> item option" where
  "keep_latest newsBriefing briefing =
     (case newsBriefing of
        None \<Rightarrow> Some briefing
      | Some nb \<Rightarrow> if num_gt (pubDate briefing) (pubDate nb) then Some briefing else Some nb)"

text \<open>
  One iteration of the loop over \<open>config.feeds\<close>, on the pair \<open>(candidates, newsBriefing)\<close>.
  The second argument is the outcome of \<open>parser.parseURL\<close>: \<open>None\<close> when it threw. Every
  exception inside the \<open>try\<close> (the fetch, \<open>parseDuration\<close>, \<open>feedConfig.tags.includes\<close> on
  a feed without tags) is caught at line 100 before either variable was assigned.
\<close>

definition process_feed ::
  "feedConfig \<Rightarrow> raw_item list option \<Rightarrow> item list \<times> item option \<Rightarrow> item list \<times> item option" where
  "process_feed fc fetched st =
     (case fetched of
        None \<Rightarrow> st
      | Some raw \<Rightarrow>
          (case feed_items fc raw of
             Inl e \<Rightarrow> st
           | Inr items \<Rightarrow>
               (case fc_tags fc of
                  None \<Rightarrow> st
                | Some ts \<Rightarrow>
                    if is_briefing_feed ts then
                      (case find (\<lambda>i. num_lt (duration i) (Fin 15)) items of
                         None \<Rightarrow> st
                       | Some briefing \<Rightarrow> (fst st, keep_latest (snd st) briefing))
                    else (fst st @ items, snd st))))"

fun fetch_all ::
  "(feedConfig \<times> raw_item list option) list \<Rightarrow> item list \<times> item option \<Rightarrow> item list \<times> item option" where
  "fetch_all [] st = st"
| "fetch_all ((fc, fetched) # rest) st = fetch_all rest (process_feed fc fetched st)"

text \<open>Where a candidate or a briefing can come from, among the feeds \<open>fs\<close>.\<close>

definition from_feed :: "bool \<Rightarrow> (feedConfig \<times> raw_item list option) list \<Rightarrow> item \<Rightarrow> bool" where
  "from_feed br fs i =
     (\<exists>fc raw ts r. (fc, Some raw) \<in> set fs \<and> fc_tags fc = Some ts \<and> is_briefing_feed ts = br
        \<and> r \<in> set (take 5 raw) \<and> convert fc r = Inr i)"




section \<open>Scoring (lines 106-143)\<close>

text \<open>\<open>item.title + ' '\<close>: an undefined title concatenates as the text \<open>undefined\<close>.\<close>

definition title_text :: "string option \<Rightarrow> string" where
  "title_text t = (case t of Some s \<Rightarrow> s | None \<Rightarrow> ''undefined'')"

text \<open>One \<open>forEach\<close> over a keyword list: \<open>pts\<close> is added for every keyword found in the text.\<close>

definition keyword_points :: "string \<Rightarrow> int \<Rightarrow> string list \<Rightarrow> int \<Rightarrow> int" where
  "keyword_points text pts kws s0 =
     fold (\<lambda>kw s. if str_includes text (toLowerCase kw) then s + pts else s) kws s0"

text \<open>
  The body of the \<open>map\<close> callback for one candidate. \<open>now\<close> is the value of the
  \<open>new Date()\<close> evaluated inside this call (line 109), in milliseconds.
\<close>

definition score_item ::
  "string list \<times> string list \<times> string list \<Rightarrow> bool \<Rightarrow> rat \<Rightarrow> item \<Rightarrow> int" where
  "score_item rl isThursday now it =
     (let text = toLowerCase (title_text (title it) @ '' '' @ contentSnippet it);
          ageInDays = num_div (num_sub (Fin now) (pubDate it)) (1000 * 60 * 60 * 24);
          s1 = keyword_points text 15 (fst rl) 0;
          s2 = keyword_points text 50 (fst (snd rl)) s1;
          s3 = keyword_points text (- 100) (snd (snd rl)) s2;
          s4 = (if list_ex (\<lambda>t. t \<in> set [''news'', ''tech'', ''space'', ''business'']) (tags it)
                then (if num_lt ageInDays (Fin 2) then s3 + 30
                      else if num_lt ageInDays (Fin 5) then s3 + 10
                      else s3 - 50)
                else (if num_lt ageInDays (Fin 7) then s3 + 10 else s3));
          s5 = (if num_ge (duration it) (Fin 15) \<and> num_le (duration it) (Fin 60)
                then s4 + 10 else s4);
          s6 = (if num_gt (duration it) (Fin 90) then s5 - 30 else s5);
          s7 = (if num_lt (duration it) (Fin 5) then s6 - 10 else s6)
      in if isThursday then
           (let d1 = (if ''date_night'' \<in> set (tags it) then s7 + 40 else s7);
                d2 = (if ''comedy'' \<in> set (tags it) then d1 + 30 else d1)
            in if ''tech'' \<in> set (tags it) then d2 - 20 else d2)
         else s7)"

definition with_score :: "item \<Rightarrow> int \<Rightarrow> scored" where
  "with_score it s = item.extend it (scored.fields s)"

text \<open>
  \<open>candidates.map(...)\<close>: the callback runs once per candidate, in order, and each call
  reads the clock anew; \<open>clock k\<close> is the value of the \<open>k\<close>-th \<open>new Date()\<close> evaluated
  from line 106 on.
\<close>

fun score_from :: "string list \<times> string list \<times> string list \<Rightarrow> bool \<Rightarrow> (nat \<Rightarrow> rat) \<Rightarrow> nat \<Rightarrow> item list \<Rightarrow> scored list" where
  "score_from rl isThursday clock k [] = []"
| "score_from rl isThursday clock k (c # cs) =
     with_score c (score_item rl isThursday (clock k) c) # score_from rl isThursday clock (Suc k) cs"

text \<open>
  Lines 106-143: the map, the filter \<open>item.score > -20\<close> and the stable sort by descending
  score. The rules are read through the reference only inside the callback, so an
  unreadable rules object throws only when there is a candidate.
\<close>

definition scoredItems :: "heap \<Rightarrow> addr \<Rightarrow> bool \<Rightarrow> (nat \<Rightarrow> rat) \<Rightarrow> item list \<Rightarrow> scored list option" where
  "scoredItems h r isThursday clock candidates =
     (if candidates = [] then Some []
      else case read_rules h r of
        None \<Rightarrow> None
      | Some rl \<Rightarrow>
          Some (sort_key (\<lambda>x. - score x)
                  (filter (\<lambda>x. score x > - 20) (score_from rl isThursday clock 0 candidates))))"

section \<open>The selection loop (lines 159-168)\<close>

text \<open>
  \<open>pack_loop target items selected currentDuration\<close> is the \<open>for\<close> loop over
  \<open>scoredItems\<close>: the three \<open>continue\<close> guards in source order, the push, and the
  \<open>break\<close> that is tested only after a push. It returns the final \<open>selected\<close> and
  \<open>currentDuration\<close>.
\<close>

fun pack_loop :: "rat \<Rightarrow> scored list \<Rightarrow> entry list \<Rightarrow> jsnum \<Rightarrow> entry list \<times> jsnum" where
  "pack_loop targetDuration [] selected currentDuration = (selected, currentDuration)"
| "pack_loop targetDuration (it # rest) selected currentDuration =
     (if list_ex (\<lambda>s. entry_title s = title it) selected
        then pack_loop targetDuration rest selected currentDuration
      else if num_gt (duration it) (Fin 90) \<and> score it < 50
        then pack_loop targetDuration rest selected currentDuration
      else if num_gt (num_add currentDuration (duration it)) (Fin (targetDuration + 15))
              \<and> score it < 60
        then pack_loop targetDuration rest selected currentDuration
      else if num_ge (num_add currentDuration (duration it)) (Fin targetDuration)
        then (selected @ [Scored it], num_add currentDuration (duration it))
      else pack_loop targetDuration rest (selected @ [Scored it])
             (num_add currentDuration (duration it)))"


text \<open>
  An item passes the three guards of lines 160-162 in the state \<open>(selected, currentDuration)\<close>.
\<close>

definition admissible :: "rat \<Rightarrow> entry list \<Rightarrow> jsnum \<Rightarrow> scored \<Rightarrow> bool" where
  "admissible targetDuration selected currentDuration it =
     (\<not> list_ex (\<lambda>s. entry_title s = title it) selected
      \<and> \<not> (num_gt (duration it) (Fin 90) \<and> score it < 50)
      \<and> \<not> (num_gt (num_add currentDuration (duration it)) (Fin (targetDuration + 15))
            \<and> score it < 60))"

text \<open>
  A sequence of admissions from a state: each item passes the guards in the state its
  predecessors left, and the target was not yet reached after any but the last.
\<close>

fun admissions :: "rat \<Rightarrow> entry list \<Rightarrow> jsnum \<Rightarrow> scored list \<Rightarrow> bool" where
  "admissions t sel cd [] = True"
| "admissions t sel cd (x # xs) =
     (admissible t sel cd x
      \<and> (xs = [] \<or> \<not> num_ge (num_add cd (duration x)) (Fin t))
      \<and> admissions t (sel @ [Scored x]) (num_add cd (duration x)) xs)"



section \<open>Selection (lines 146-168) and the run\<close>

text \<open>
  Lines 149-156: the briefing is pushed first when its age in hours, at the clock reading
  \<open>now\<close> of line 150, is below 24. Then the loop runs from that state.
\<close>

definition seed :: "rat \<Rightarrow> item option \<Rightarrow> entry list \<times> jsnum" where
  "seed now newsBriefing =
     (case newsBriefing of
        None \<Rightarrow> ([], Fin 0)
      | Some nb \<Rightarrow>
          (let ageHours = num_div (num_sub (Fin now) (pubDate nb)) (1000 * 60 * 60) in
           if num_lt ageHours (Fin 24) then ([Briefing nb], num_add (Fin 0) (duration nb))
           else ([], Fin 0)))"

definition select :: "rat \<Rightarrow> rat \<Rightarrow> item option \<Rightarrow> scored list \<Rightarrow> entry list \<times> jsnum" where
  "select now targetDuration newsBriefing items =
     pack_loop targetDuration items (fst (seed now newsBriefing)) (snd (seed now newsBriefing))"

text \<open>\<open>config.target_duration_minutes || 70\<close>.\<close>

definition targetDuration_of :: "config \<Rightarrow> rat" where
  "targetDuration_of cfg =
     (case target_duration_minutes cfg of None \<Rightarrow> 70 | Some t \<Rightarrow> if t = 0 then 70 else t)"

text \<open>
  The run from line 61 to line 168. \<open>isThursday\<close> is the weekday test of line 58 in the
  host's time zone; \<open>fetched\<close> holds the outcome of \<open>parser.parseURL\<close> for each feed in
  order; \<open>clock\<close> gives the successive readings of \<open>new Date()\<close> from line 106 on: one per
  candidate, then the one of line 150. The result is \<open>selected\<close>, \<open>currentDuration\<close> and
  the store; \<open>None\<close> is an exception that leaves \<open>run\<close>.
\<close>

definition run ::
  "bool \<Rightarrow> (nat \<Rightarrow> rat) \<Rightarrow> config \<Rightarrow> heap \<Rightarrow> raw_item list option list
     \<Rightarrow> ((entry list \<times> jsnum) \<times> heap) option" where
  "run isThursday clock cfg h fetched =
     do {
       (r, h') \<leftarrow> build_rules isThursday cfg h;
       let (candidates, newsBriefing) = fetch_all (zip (feeds cfg) fetched) ([], None);
       items \<leftarrow> scoredItems h' r isThursday clock candidates;
       Some (select (clock (length candidates)) (targetDuration_of cfg) newsBriefing items, h')
     }"

text \<open>
  The run in the specification's words: one instant \<open>now\<close> is captured and handed to every
  scoring call and to the freshness test of the briefing.
\<close>

definition scoredItems_at :: "heap \<Rightarrow> addr \<Rightarrow> bool \<Rightarrow> rat \<Rightarrow> item list \<Rightarrow> scored list option" where
  "scoredItems_at h r isThursday now candidates =
     (if candidates = [] then Some []
      else case read_rules h r of
        None \<Rightarrow> None
      | Some rl \<Rightarrow>
          Some (sort_key (\<lambda>x. - score x)
                  (filter (\<lambda>x. score x > - 20)
                     (map (\<lambda>c. with_score c (score_item rl isThursday now c)) candidates))))"

definition run_at ::
  "bool \<Rightarrow> rat \<Rightarrow> config \<Rightarrow> heap \<Rightarrow> raw_item list option list
     \<Rightarrow> ((entry list \<times> jsnum) \<times> heap) option" where
  "run_at isThursday now cfg h fetched =
     do {
       (r, h') \<leftarrow> build_rules isThursday cfg h;
       let (candidates, newsBriefing) = fetch_all (zip (feeds cfg) fetched) ([], None);
       items \<leftarrow> scoredItems_at h' r isThursday now candidates;
       Some (select now (targetDuration_of cfg) newsBriefing items, h')
     }"

section \<open>Sample data\<close>

text \<open>A scored episode with the given title, duration in minutes and score.\<close>

definition episode :: "string \<Rightarrow> rat \<Rightarrow> int \<Rightarrow> scored" where
  "episode t d s =
     \<lparr>title = Some t, link = None, guid = None, audio_url = Some ''http://example.org/a.mp3'',
      pubDate = Fin 0, duration = Fin d, contentSnippet = [], feedName = ''Feed'', tags = [],
      score = s\<rparr>"

text \<open>A briefing item with the given title, duration in minutes and publication time.\<close>

definition briefing_item :: "string \<Rightarrow> rat \<Rightarrow> rat \<Rightarrow> item" where
  "briefing_item t d p =
     \<lparr>title = Some t, link = None, guid = None, audio_url = Some ''http://example.org/a.mp3'',
      pubDate = Fin p, duration = Fin d, contentSnippet = [], feedName = ''News'',
      tags = [''news'', ''briefing'']\<rparr>"

text \<open>An item of the feed \<open>Sky\<close>, tagged \<open>space\<close>.\<close>

definition sky_item :: "string \<Rightarrow> rat \<Rightarrow> rat \<Rightarrow> item" where
  "sky_item t d p =
     \<lparr>title = Some t, link = None, guid = None, audio_url = Some ''http://example.org/a.mp3'',
      pubDate = Fin p, duration = Fin d, contentSnippet = [], feedName = ''Sky'',
      tags = [''space'']\<rparr>"

text \<open>A raw feed item with the given title, duration text and publication time.\<close>

definition fetched_item :: "string \<Rightarrow> string \<Rightarrow> rat \<Rightarrow> raw_item" where
  "fetched_item t d p =
     \<lparr>r_title = Some t, r_link = None, r_guid = None,
      r_enclosure_url = Some ''http://example.org/a.mp3'', r_pubDate = Fin p,
      r_duration = JString d, r_itunes_duration = JUndefined,
      r_contentSnippet = None, r_content = None\<rparr>"

text \<open>
  A configuration in a store: the rules object at address 5 with its five keyword arrays
  at addresses 0 to 4, a feed tagged \<open>space\<close> and a news briefing feed.
\<close>

definition sample_heap :: heap where
  "sample_heap =
     \<lparr>arrays = [0 \<mapsto> [''Mars''], 1 \<mapsto> [''Ada''], 2 \<mapsto> [''crime''], 3 \<mapsto> [''love''], 4 \<mapsto> [''work'']],
      objects = [5 \<mapsto> \<lparr>boost_keywords = 0, boost_guests = 1, block_keywords = 2,
                        datenight_keywords = 3, datenight_block = 4\<rparr>],
      next_addr = 6\<rparr>"

definition sky_feed :: feedConfig where
  "sky_feed = \<lparr>name = ''Sky'', url = ''http://example.org/sky'', fc_tags = Some [''space'']\<rparr>"

definition news_feed :: feedConfig where
  "news_feed = \<lparr>name = ''News'', url = ''http://example.org/news'',
                 fc_tags = Some [''news'', ''briefing'']\<rparr>"

definition sample_config :: config where
  "sample_config = \<lparr>target_duration_minutes = Some 70, rules = 5, feeds = [sky_feed, news_feed]\<rparr>"

text \<open>
  What the two feeds deliver in the sample run, with times in milliseconds: the run is at
  day 10, the two space episodes are one day old, the news items one and three hours.
\<close>

definition sample_fetched :: "raw_item list option list" where
  "sample_fetched =
     [Some [fetched_item ''Mars rover'' ''40:00'' 777600000,
            fetched_item ''True crime on the Moon'' ''30:00'' 777600000],
      Some [fetched_item ''Long news'' ''20:00'' 860400000,
            fetched_item ''Morning News'' ''8:00'' 853200000]]"

text \<open>
  A second run: the feed \<open>Sky\<close> delivers six items, and three briefing feeds offer a
  briefing each, the second and third published at the same time.
\<close>

definition world_feed :: feedConfig where
  "world_feed = \<lparr>name = ''World'', url = ''http://example.org/world'',
                  fc_tags = Some [''news'', ''briefing'']\<rparr>"

definition wire_feed :: feedConfig where
  "wire_feed = \<lparr>name = ''Wire'', url = ''http://example.org/wire'',
                 fc_tags = Some [''briefing'', ''news'']\<rparr>"

definition briefing_config :: config where
  "briefing_config =
     \<lparr>target_duration_minutes = Some 70, rules = 5,
      feeds = [sky_feed, news_feed, world_feed, wire_feed]\<rparr>"

definition briefing_fetched :: "raw_item list option list" where
  "briefing_fetched =
     [Some [fetched_item ''Mars rover'' ''40:00'' 777600000,
            fetched_item ''Venus'' ''20:00'' 777600000,
            fetched_item ''Jupiter'' ''25:00'' 777600000,
            fetched_item ''Saturn'' ''30:00'' 777600000,
            fetched_item ''Pluto'' ''10:00'' 777600000,
            fetched_item ''Mars again'' ''35:00'' 777600000],
      Some [fetched_item ''Long news'' ''20:00'' 860400000,
            fetched_item ''Morning News'' ''8:00'' 853200000,
            fetched_item ''Short later'' ''5:00'' 860000000],
      Some [fetched_item ''World crime brief'' ''10:00'' 857000000],
      Some [fetched_item ''Wire brief'' ''9:00'' 857000000]]"

text \<open>The item built from a fetched item of a feed, with its duration in minutes.\<close>

definition feed_item :: "feedConfig \<Rightarrow> string \<Rightarrow> rat \<Rightarrow> rat \<Rightarrow> item" where
  "feed_item fc t d p =
     \<lparr>title = Some t, link = None, guid = None, audio_url = Some ''http://example.org/a.mp3'',
      pubDate = Fin p, duration = Fin d, contentSnippet = [], feedName = name fc,
      tags = (case fc_tags fc of Some ts \<Rightarrow> ts | None \<Rightarrow> [])\<rparr>"

text \<open>
  A third run: two space episodes published at the same time, and two clocks that agree
  on their first reading, one millisecond before the episodes are five days old. One
  clock stands still; the other has moved on by two milliseconds at its next reading.
\<close>

definition two_fetched :: "raw_item list option list" where
  "two_fetched =
     [Some [fetched_item ''Mars rover'' ''40:00'' 777600000,
            fetched_item ''Venus'' ''20:00'' 777600000],
      None]"

definition frozen_clock :: "nat \<Rightarrow> rat" where
  "frozen_clock k = 1209599999"

definition ticking_clock :: "nat \<Rightarrow> rat" where
  "ticking_clock k = (if k = 0 then 1209599999 else 1209600001)"

section \<open>The loop: what an admission means\<close>

lemma pack_loop_Cons:
  "pack_loop t (it # rest) sel cd =
     (if \<not> admissible t sel cd it then pack_loop t rest sel cd
      else if num_ge (num_add cd (duration it)) (Fin t)
        then (sel @ [Scored it], num_add cd (duration it))
      else pack_loop t rest (sel @ [Scored it]) (num_add cd (duration it)))"
  by (simp add: admissible_def)

lemma pack_loop_admissions:
  "\<exists>adm. pack_loop t items sel cd = (sel @ map Scored adm, foldl num_add cd (map duration adm))
     \<and> admissions t sel cd adm \<and> set adm \<subseteq> set items"
proof (induction items arbitrary: sel cd)
  case Nil
  have "pack_loop t [] sel cd = (sel @ map Scored [], foldl num_add cd (map duration []))
     \<and> admissions t sel cd [] \<and> set [] \<subseteq> set ([] :: scored list)" by simp
  then show ?case by blast
next
  case (Cons it rest)
  show ?case
  proof (cases "admissible t sel cd it")
    case False
    obtain adm where a: "pack_loop t rest sel cd = (sel @ map Scored adm, foldl num_add cd (map duration adm))"
      "admissions t sel cd adm" "set adm \<subseteq> set rest" using Cons.IH by blast
    have "pack_loop t (it # rest) sel cd = (sel @ map Scored adm, foldl num_add cd (map duration adm))
      \<and> admissions t sel cd adm \<and> set adm \<subseteq> set (it # rest)"
      using a False by (auto simp only: pack_loop_Cons if_True if_False simp_thms set_simps)
    then show ?thesis by blast
  next
    case adm_it: True
    show ?thesis
    proof (cases "num_ge (num_add cd (duration it)) (Fin t)")
      case True
      have "pack_loop t (it # rest) sel cd = (sel @ map Scored [it], foldl num_add cd (map duration [it]))
        \<and> admissions t sel cd [it] \<and> set [it] \<subseteq> set (it # rest)"
        using adm_it True by (simp add: pack_loop_Cons del: pack_loop.simps)
      then show ?thesis by blast
    next
      case False
      obtain adm where a: "pack_loop t rest (sel @ [Scored it]) (num_add cd (duration it))
           = ((sel @ [Scored it]) @ map Scored adm, foldl num_add (num_add cd (duration it)) (map duration adm))"
        "admissions t (sel @ [Scored it]) (num_add cd (duration it)) adm" "set adm \<subseteq> set rest"
        using Cons.IH by blast
      have "pack_loop t (it # rest) sel cd = (sel @ map Scored (it # adm), foldl num_add cd (map duration (it # adm)))
        \<and> admissions t sel cd (it # adm) \<and> set (it # adm) \<subseteq> set (it # rest)"
        using adm_it False a by (auto simp add: pack_loop_Cons simp del: pack_loop.simps)
      then show ?thesis by blast
    qed
  qed
qed

lemma admissions_not_long_mediocre:
  "admissions t sel cd adm \<Longrightarrow> x \<in> set adm \<Longrightarrow> \<not> (num_gt (duration x) (Fin 90) \<and> score x < 50)"
  by (induction adm arbitrary: sel cd) (auto simp: admissible_def)

lemma seed_no_scored: "Scored x \<notin> set (fst (seed now nb))"
  by (simp add: seed_def Let_def split: option.splits)

text \<open>
  Claim C8. A scored candidate that is longer than 90 minutes and scores below 50 is never
  admitted: it is absent from the selection whatever the target, the briefing and the other
  candidates are, so also when the accumulated duration is far below the target.
\<close>

theorem long_mediocre_never_admitted:
  assumes "num_gt (duration x) (Fin 90)" and "score x < 50"
  shows "Scored x \<notin> set (fst (select now t nb items))"
proof -
  obtain adm where a:
    "pack_loop t items (fst (seed now nb)) (snd (seed now nb))
       = (fst (seed now nb) @ map Scored adm, foldl num_add (snd (seed now nb)) (map duration adm))"
    "admissions t (fst (seed now nb)) (snd (seed now nb)) adm"
    using pack_loop_admissions by blast
  have "x \<notin> set adm" using admissions_not_long_mediocre [OF a(2)] assms by blast
  then have "Scored x \<notin> set (map Scored adm)" by auto
  then show ?thesis using a(1) seed_no_scored by (simp add: select_def)
qed

theorem long_mediocre_never_admitted_witness:
  "num_gt (duration (episode ''Long'' 95 45)) (Fin 90) \<and> score (episode ''Long'' 95 45) < 50
   \<and> Scored (episode ''Long'' 95 45)
       \<notin> set (fst (select 0 70 None [episode ''Long'' 95 45, episode ''Short'' 25 20]))
   \<and> select 0 70 None [episode ''Long'' 95 45, episode ''Short'' 25 20]
       = ([Scored (episode ''Short'' 25 20)], Fin 25)"
proof -
  have h1: "num_gt (duration (episode ''Long'' 95 45)) (Fin 90)"
    by (simp add: episode_def num_gt_def)
  have h2: "score (episode ''Long'' 95 45) < 50" by (simp add: episode_def)
  have e: "select 0 70 None [episode ''Long'' 95 45, episode ''Short'' 25 20]
       = ([Scored (episode ''Short'' 25 20)], Fin 25)"
    by (simp add: select_def seed_def episode_def num_gt_def num_ge_def num_le_def)
  show ?thesis
    using h1 h2 e long_mediocre_never_admitted [OF h1 h2, of 0 70 None
        "[episode ''Long'' 95 45, episode ''Short'' 25 20]"]
    by blast
qed


section \<open>The loop: the overflow rule and the break\<close>












section \<open>The briefing seed and the score filter\<close>

lemma num_div_lt: "0 < k \<Longrightarrow> num_lt (num_div a k) (Fin c) = num_lt a (Fin (c * k))"
  by (cases a) (auto simp: pos_divide_less_eq)

lemma select_fresh:
  "num_lt (num_sub (Fin now) (pubDate nb)) (Fin (24 * 3600000)) \<Longrightarrow>
   select now t (Some nb) items = pack_loop t items [Briefing nb] (num_add (Fin 0) (duration nb))"
  by (simp add: select_def seed_def num_div_lt)

lemma select_stale:
  "\<not> num_lt (num_sub (Fin now) (pubDate nb)) (Fin (24 * 3600000)) \<Longrightarrow>
   select now t (Some nb) items = pack_loop t items [] (Fin 0)"
  by (simp add: select_def seed_def num_div_lt)

lemma select_None: "select now t None items = pack_loop t items [] (Fin 0)"
  by (simp add: select_def seed_def)

text \<open>
  Claim C5. When a briefing candidate was found, it is in the final selection if and only
  if its age at the clock reading of line 150 is strictly below 24 hours (in milliseconds:
  the reading minus \<open>pubDate\<close> is below \<open>24 * 3600000\<close>; an invalid date gives NaN and is
  not below). When it is, the selection is the briefing followed by scored items only, so
  the briefing is the first element; when it is not, the run is the run without a briefing.
\<close>

theorem briefing_first_iff_fresh:
  "(Briefing nb \<in> set (fst (select now t (Some nb) items))
      \<longleftrightarrow> num_lt (num_sub (Fin now) (pubDate nb)) (Fin (24 * 3600000)))
   \<and> (num_lt (num_sub (Fin now) (pubDate nb)) (Fin (24 * 3600000))
      \<longrightarrow> (\<exists>adm. fst (select now t (Some nb) items) = Briefing nb # map Scored adm))
   \<and> (\<not> num_lt (num_sub (Fin now) (pubDate nb)) (Fin (24 * 3600000))
      \<longrightarrow> select now t (Some nb) items = select now t None items)"
proof (cases "num_lt (num_sub (Fin now) (pubDate nb)) (Fin (24 * 3600000))")
  case True
  obtain adm where a: "pack_loop t items [Briefing nb] (num_add (Fin 0) (duration nb))
      = ([Briefing nb] @ map Scored adm, foldl num_add (num_add (Fin 0) (duration nb)) (map duration adm))"
    using pack_loop_admissions by blast
  have "fst (select now t (Some nb) items) = Briefing nb # map Scored adm"
    using a True by (simp add: select_fresh)
  then show ?thesis using True by auto
next
  case False
  obtain adm where a: "pack_loop t items [] (Fin 0)
      = ([] @ map Scored adm, foldl num_add (Fin 0) (map duration adm))"
    using pack_loop_admissions by blast
  have "fst (select now t (Some nb) items) = map Scored adm"
    using a False by (simp add: select_stale)
  then have "Briefing nb \<notin> set (fst (select now t (Some nb) items))" by auto
  then show ?thesis using False by (simp add: select_stale select_None)
qed

theorem briefing_first_iff_fresh_witness:
  "num_lt (num_sub (Fin 10800000) (pubDate (briefing_item ''Morning News'' 8 0))) (Fin (24 * 3600000))
   \<and> select 10800000 70 (Some (briefing_item ''Morning News'' 8 0)) [episode ''A'' 40 65, episode ''B'' 35 50]
      = ([Briefing (briefing_item ''Morning News'' 8 0), Scored (episode ''A'' 40 65),
          Scored (episode ''B'' 35 50)], Fin 83)
   \<and> Briefing (briefing_item ''Morning News'' 8 0)
      \<in> set (fst (select 10800000 70 (Some (briefing_item ''Morning News'' 8 0))
                 [episode ''A'' 40 65, episode ''B'' 35 50]))
   \<and> \<not> num_lt (num_sub (Fin 86400000) (pubDate (briefing_item ''Morning News'' 8 0))) (Fin (24 * 3600000))
   \<and> Briefing (briefing_item ''Morning News'' 8 0)
      \<notin> set (fst (select 86400000 70 (Some (briefing_item ''Morning News'' 8 0))
                 [episode ''A'' 40 65, episode ''B'' 35 50]))
   \<and> select 86400000 70 (Some (briefing_item ''Morning News'' 8 0)) [episode ''A'' 40 65, episode ''B'' 35 50]
      = select 86400000 70 None [episode ''A'' 40 65, episode ''B'' 35 50]"
proof -
  let ?nb = "briefing_item ''Morning News'' 8 0"
  let ?items = "[episode ''A'' 40 65, episode ''B'' 35 50]"
  have f: "num_lt (num_sub (Fin 10800000) (pubDate ?nb)) (Fin (24 * 3600000))"
    by (simp add: briefing_item_def num_sub_def)
  have s: "\<not> num_lt (num_sub (Fin 86400000) (pubDate ?nb)) (Fin (24 * 3600000))"
    by (simp add: briefing_item_def num_sub_def)
  have e: "select 10800000 70 (Some ?nb) ?items
      = ([Briefing ?nb, Scored (episode ''A'' 40 65), Scored (episode ''B'' 35 50)], Fin 83)"
    by (simp add: select_def seed_def episode_def briefing_item_def num_sub_def
        num_gt_def num_ge_def num_le_def)
  have t1: "Briefing ?nb \<in> set (fst (select 10800000 70 (Some ?nb) ?items))"
    using briefing_first_iff_fresh [of ?nb 10800000 70 ?items] f by blast
  have t2: "Briefing ?nb \<notin> set (fst (select 86400000 70 (Some ?nb) ?items))
     \<and> select 86400000 70 (Some ?nb) ?items = select 86400000 70 None ?items"
    using briefing_first_iff_fresh [of ?nb 86400000 70 ?items] s by blast
  show ?thesis using f s e t1 t2 by blast
qed

lemma with_score_simps:
  "score (with_score c s) = s" "title (with_score c s) = title c"
  "duration (with_score c s) = duration c" "pubDate (with_score c s) = pubDate c"
  "tags (with_score c s) = tags c"
  by (simp_all add: with_score_def item.extend_def scored.fields_def)

lemma score_from_nth:
  "i < length cs \<Longrightarrow> score_from rl thu clock k cs ! i
     = with_score (cs ! i) (score_item rl thu (clock (k + i)) (cs ! i))"
proof (induction cs arbitrary: k i)
  case Nil
  then show ?case by simp
next
  case (Cons c cs)
  then show ?case by (cases i) simp_all
qed

lemma length_score_from: "length (score_from rl thu clock k cs) = length cs"
  by (induction cs arbitrary: k) simp_all

lemma scoredItems_set:
  assumes "scoredItems h r thu clock cands = Some items" and "s \<in> set items"
  shows "- 20 < score s \<and> (\<exists>rl i. read_rules h r = Some rl \<and> i < length cands
           \<and> s = with_score (cands ! i) (score_item rl thu (clock i) (cands ! i)))"
proof (cases "cands = []")
  case True
  then show ?thesis using assms by (simp add: scoredItems_def)
next
  case False
  then obtain rl where rl: "read_rules h r = Some rl"
    and it: "items = sort_key (\<lambda>x. - score x)
                (filter (\<lambda>x. - 20 < score x) (score_from rl thu clock 0 cands))"
    using assms(1) by (auto simp: scoredItems_def split: option.splits)
  have m: "s \<in> set (score_from rl thu clock 0 cands)" and p: "- 20 < score s"
    using assms(2) it by auto
  obtain i where i: "i < length cands" "s = score_from rl thu clock 0 cands ! i"
    using m by (auto simp: in_set_conv_nth length_score_from)
  have "s = with_score (cands ! i) (score_item rl thu (clock i) (cands ! i))"
    using i score_from_nth [OF i(1), of rl thu clock 0] by simp
  then show ?thesis using p rl i(1) by blast
qed

lemma select_scored_subset: "Scored s \<in> set (fst (select now t nb items)) \<Longrightarrow> s \<in> set items"
proof -
  assume a: "Scored s \<in> set (fst (select now t nb items))"
  obtain adm where adm:
    "pack_loop t items (fst (seed now nb)) (snd (seed now nb))
       = (fst (seed now nb) @ map Scored adm, foldl num_add (snd (seed now nb)) (map duration adm))"
    "set adm \<subseteq> set items"
    using pack_loop_admissions by blast
  have "Scored s \<in> set (map Scored adm)"
    using a adm(1) seed_no_scored [of s now nb] by (simp add: select_def)
  then show ?thesis using adm(2) by auto
qed

lemma run_SomeD:
  assumes "run thu clock cfg h fetched = Some ((sel, cd), h')"
    and "fetch_all (zip (feeds cfg) fetched) ([], None) = (cands, nb)"
  shows "\<exists>r items. build_rules thu cfg h = Some (r, h')
     \<and> scoredItems h' r thu clock cands = Some items
     \<and> select (clock (length cands)) (targetDuration_of cfg) nb items = (sel, cd)"
  using assms by (auto simp: run_def split: Option.bind_splits prod.splits)

text \<open>
  Claim C3. In every run that returns, the sorted list handed to the selection holds only
  items with a score above -20: a candidate whose computed score is -20 or less is absent
  from that list and from the final selection, and every scored item of the selection
  comes from that list, whatever the target leaves room for.
\<close>

theorem low_scores_never_selected:
  assumes "run thu clock cfg h fetched = Some ((sel, cd), h')"
    and "fetch_all (zip (feeds cfg) fetched) ([], None) = (cands, nb)"
  shows "\<exists>r items. build_rules thu cfg h = Some (r, h')
     \<and> scoredItems h' r thu clock cands = Some items
     \<and> (\<forall>s\<in>set items. - 20 < score s)
     \<and> (\<forall>rl i. read_rules h' r = Some rl \<and> i < length cands
              \<and> score_item rl thu (clock i) (cands ! i) \<le> - 20
          \<longrightarrow> with_score (cands ! i) (score_item rl thu (clock i) (cands ! i)) \<notin> set items
            \<and> Scored (with_score (cands ! i) (score_item rl thu (clock i) (cands ! i))) \<notin> set sel)
     \<and> (\<forall>s. Scored s \<in> set sel \<longrightarrow> s \<in> set items)"
proof -
  obtain r items where r: "build_rules thu cfg h = Some (r, h')"
    and it: "scoredItems h' r thu clock cands = Some items"
    and se: "select (clock (length cands)) (targetDuration_of cfg) nb items = (sel, cd)"
    using run_SomeD [OF assms] by blast
  have a: "\<forall>s\<in>set items. - 20 < score s"
    using scoredItems_set [OF it] by blast
  have c: "\<forall>s. Scored s \<in> set sel \<longrightarrow> s \<in> set items"
    using select_scored_subset [of _ "clock (length cands)" "targetDuration_of cfg" nb items] se
    by simp
  have b: "\<forall>rl i. read_rules h' r = Some rl \<and> i < length cands
              \<and> score_item rl thu (clock i) (cands ! i) \<le> - 20
          \<longrightarrow> with_score (cands ! i) (score_item rl thu (clock i) (cands ! i)) \<notin> set items
            \<and> Scored (with_score (cands ! i) (score_item rl thu (clock i) (cands ! i))) \<notin> set sel"
  proof (intro allI impI)
    fix rl i
    assume h: "read_rules h' r = Some rl \<and> i < length cands
              \<and> score_item rl thu (clock i) (cands ! i) \<le> - 20"
    let ?s = "with_score (cands ! i) (score_item rl thu (clock i) (cands ! i))"
    have "score ?s \<le> - 20" using h by (simp add: with_score_simps)
    then have "?s \<notin> set items" using a by fastforce
    then show "?s \<notin> set items \<and> Scored ?s \<notin> set sel" using c by blast
  qed
  show ?thesis using r it a b c by blast
qed

lemma sample_fetch:
  "fetch_all (zip (feeds sample_config) sample_fetched) ([], None)
     = ([sky_item ''Mars rover'' 40 777600000, sky_item ''True crime on the Moon'' 30 777600000],
        Some (briefing_item ''Morning News'' 8 853200000))"
  by code_simp

lemma sample_rules:
  "read_rules sample_heap 5 = Some ([''Mars''], [''Ada''], [''crime''])"
  by (simp add: read_rules_def sample_heap_def)

lemma sample_scored:
  "scoredItems sample_heap 5 False (\<lambda>k. 864000000)
      [sky_item ''Mars rover'' 40 777600000, sky_item ''True crime on the Moon'' 30 777600000]
     = Some [with_score (sky_item ''Mars rover'' 40 777600000) 55]"
  by code_simp

lemma sample_select:
  "select 864000000 70 (Some (briefing_item ''Morning News'' 8 853200000))
       [with_score (sky_item ''Mars rover'' 40 777600000) 55]
     = ([Briefing (briefing_item ''Morning News'' 8 853200000),
         Scored (with_score (sky_item ''Mars rover'' 40 777600000) 55)], Fin 48)"
  by code_simp

lemma sample_run:
  "run False (\<lambda>k. 864000000) sample_config sample_heap sample_fetched
     = Some (([Briefing (briefing_item ''Morning News'' 8 853200000),
               Scored (with_score (sky_item ''Mars rover'' 40 777600000) 55)], Fin 48),
             sample_heap)"
proof -
  have t: "targetDuration_of sample_config = 70" "rules sample_config = 5"
    by (simp_all add: targetDuration_of_def sample_config_def)
  show ?thesis
    by (simp add: run_def build_rules_def sample_fetch sample_scored sample_select t)
qed

lemma sample_crime_score:
  "score_item ([''Mars''], [''Ada''], [''crime'']) False 864000000
      (sky_item ''True crime on the Moon'' 30 777600000) = - 60"
  by code_simp

theorem low_scores_never_selected_witness:
  "run False (\<lambda>k. 864000000) sample_config sample_heap sample_fetched
     = Some (([Briefing (briefing_item ''Morning News'' 8 853200000),
               Scored (with_score (sky_item ''Mars rover'' 40 777600000) 55)], Fin 48),
             sample_heap)
   \<and> fetch_all (zip (feeds sample_config) sample_fetched) ([], None)
     = ([sky_item ''Mars rover'' 40 777600000, sky_item ''True crime on the Moon'' 30 777600000],
        Some (briefing_item ''Morning News'' 8 853200000))
   \<and> score_item ([''Mars''], [''Ada''], [''crime'']) False 864000000
        (sky_item ''True crime on the Moon'' 30 777600000) = - 60
   \<and> Scored (with_score (sky_item ''True crime on the Moon'' 30 777600000) (- 60))
       \<notin> set [Briefing (briefing_item ''Morning News'' 8 853200000),
               Scored (with_score (sky_item ''Mars rover'' 40 777600000) 55)]"
proof -
  let ?cands = "[sky_item ''Mars rover'' 40 777600000, sky_item ''True crime on the Moon'' 30 777600000]"
  let ?sel = "[Briefing (briefing_item ''Morning News'' 8 853200000),
               Scored (with_score (sky_item ''Mars rover'' 40 777600000) 55)]"
  obtain r items where r: "build_rules False sample_config sample_heap = Some (r, sample_heap)"
    and b: "\<forall>rl i. read_rules sample_heap r = Some rl \<and> i < length ?cands
              \<and> score_item rl False ((\<lambda>k. 864000000) i) (?cands ! i) \<le> - 20
          \<longrightarrow> with_score (?cands ! i) (score_item rl False ((\<lambda>k. 864000000) i) (?cands ! i)) \<notin> set items
            \<and> Scored (with_score (?cands ! i) (score_item rl False ((\<lambda>k. 864000000) i) (?cands ! i))) \<notin> set ?sel"
    using low_scores_never_selected [OF sample_run sample_fetch] by blast
  have r5: "r = 5" using r by (simp add: build_rules_def sample_config_def)
  have "Scored (with_score (?cands ! 1) (score_item ([''Mars''], [''Ada''], [''crime'']) False 864000000 (?cands ! 1))) \<notin> set ?sel"
    using b [rule_format, of "([''Mars''], [''Ada''], [''crime''])" 1] sample_rules sample_crime_score
    unfolding r5 by simp
  then have "Scored (with_score (sky_item ''True crime on the Moon'' 30 777600000) (- 60)) \<notin> set ?sel"
    using sample_crime_score by simp
  then show ?thesis using sample_run sample_fetch sample_crime_score by blast
qed

section \<open>Fetching: the first five items and the briefing feeds\<close>

lemma feed_items_take5: "feed_items fc (take 5 raw) = feed_items fc raw"
  by (simp add: feed_items_def)

lemma process_feed_take5:
  "process_feed fc (map_option (take 5) fetched) st = process_feed fc fetched st"
  by (cases fetched) (simp_all add: process_feed_def feed_items_take5)

lemma fetch_all_take5:
  "fetch_all (zip fcs (map (map_option (take 5)) fetched)) st = fetch_all (zip fcs fetched) st"
proof (induction fcs arbitrary: fetched st)
  case Nil
  then show ?case by simp
next
  case (Cons fc fcs)
  then show ?case by (cases fetched) (simp_all add: process_feed_take5)
qed

lemma convert_all_set:
  "convert_all fc rs = Inr is \<Longrightarrow> i \<in> set is \<Longrightarrow> \<exists>r\<in>set rs. convert fc r = Inr i"
proof (induction rs arbitrary: "is")
  case Nil
  then show ?case by simp
next
  case (Cons r rs)
  then show ?case by (auto split: sum.splits)
qed

lemma convert_tags:
  "convert fc r = Inr c \<Longrightarrow> tags c = (case fc_tags fc of Some ts \<Rightarrow> ts | None \<Rightarrow> [])"
  by (auto simp: convert_def split: sum.splits)

lemma feed_items_set:
  "feed_items fc raw = Inr items \<Longrightarrow> i \<in> set items
     \<Longrightarrow> \<exists>r\<in>set (take 5 raw). convert fc r = Inr i"
  using convert_all_set [of fc "take 5 raw"]
  by (auto simp: feed_items_def split: sum.splits)

lemma process_feed_sources:
  assumes "(fc, fetched) \<in> set fs"
    and "\<forall>c\<in>set (fst st). from_feed False fs c" and "\<forall>b. snd st = Some b \<longrightarrow> from_feed True fs b"
  shows "(\<forall>c\<in>set (fst (process_feed fc fetched st)). from_feed False fs c)
     \<and> (\<forall>b. snd (process_feed fc fetched st) = Some b \<longrightarrow> from_feed True fs b)"
proof (cases fetched)
  case None
  then show ?thesis using assms by (simp add: process_feed_def)
next
  case (Some raw)
  show ?thesis
  proof (cases "feed_items fc raw")
    case (Inl e)
    then show ?thesis using assms Some by (simp add: process_feed_def)
  next
    case (Inr items)
    show ?thesis
    proof (cases "fc_tags fc")
      case None
      then show ?thesis using assms Some Inr by (simp add: process_feed_def)
    next
      case ts: (Some ts)
      have src: "\<And>i. i \<in> set items \<Longrightarrow> from_feed (is_briefing_feed ts) fs i"
        using feed_items_set [OF Inr] assms(1) Some ts unfolding from_feed_def by blast
      show ?thesis
      proof (cases "is_briefing_feed ts")
        case False
        then show ?thesis using assms Some Inr ts src by (auto simp: process_feed_def)
      next
        case True
        show ?thesis
        proof (cases "find (\<lambda>i. num_lt (duration i) (Fin 15)) items")
          case None
          then show ?thesis using assms Some Inr ts True by (simp add: process_feed_def)
        next
          case b: (Some b)
          have "b \<in> set items" using b by (auto simp: find_Some_iff)
          then have fb: "from_feed True fs b" using src True by simp
          show ?thesis
            using assms Some Inr ts True b fb
            by (auto simp: process_feed_def keep_latest_def split: option.splits if_splits)
        qed
      qed
    qed
  qed
qed

lemma fetch_all_sources:
  assumes "set fs' \<subseteq> set fs"
    and "\<forall>c\<in>set (fst st). from_feed False fs c" and "\<forall>b. snd st = Some b \<longrightarrow> from_feed True fs b"
  shows "(\<forall>c\<in>set (fst (fetch_all fs' st)). from_feed False fs c)
     \<and> (\<forall>b. snd (fetch_all fs' st) = Some b \<longrightarrow> from_feed True fs b)"
  using assms
proof (induction fs' arbitrary: st)
  case Nil
  then show ?case by simp
next
  case (Cons p fs')
  obtain fc fetched where p: "p = (fc, fetched)" by (cases p)
  have m: "(fc, fetched) \<in> set fs" using Cons.prems(1) p by simp
  have st': "(\<forall>c\<in>set (fst (process_feed fc fetched st)). from_feed False fs c)
     \<and> (\<forall>b. snd (process_feed fc fetched st) = Some b \<longrightarrow> from_feed True fs b)"
    using process_feed_sources [OF m Cons.prems(2,3)] .
  have "set fs' \<subseteq> set fs" using Cons.prems(1) by simp
  then show ?case using Cons.IH [of "process_feed fc fetched st"] st' p by simp
qed

text \<open>
  Claim C10. A run on the fetched feeds is the run on the feeds cut to their first five
  items. Every general candidate was built from one of the first five items of a feed that
  is not tagged both \<open>news\<close> and \<open>briefing\<close>, and the briefing holder from one of the first
  five items of a feed that is: no item of such a feed enters the candidate pool, however
  long it is, and no candidate carries both tags.
\<close>

theorem first_five_only_and_briefing_feeds_apart:
  "run thu clock cfg h fetched = run thu clock cfg h (map (map_option (take 5)) fetched)
   \<and> (\<forall>c\<in>set (fst (fetch_all fs ([], None))).
        \<exists>fc raw ts r. (fc, Some raw) \<in> set fs \<and> fc_tags fc = Some ts \<and> \<not> is_briefing_feed ts
           \<and> r \<in> set (take 5 raw) \<and> convert fc r = Inr c)
   \<and> (\<forall>b. snd (fetch_all fs ([], None)) = Some b \<longrightarrow>
        (\<exists>fc raw ts r. (fc, Some raw) \<in> set fs \<and> fc_tags fc = Some ts \<and> is_briefing_feed ts
           \<and> r \<in> set (take 5 raw) \<and> convert fc r = Inr b))
   \<and> (\<forall>c\<in>set (fst (fetch_all fs ([], None))). \<not> is_briefing_feed (tags c))"
proof -
  have a: "run thu clock cfg h fetched = run thu clock cfg h (map (map_option (take 5)) fetched)"
    by (simp add: run_def fetch_all_take5)
  have b: "(\<forall>c\<in>set (fst (fetch_all fs ([], None))). from_feed False fs c)
     \<and> (\<forall>b. snd (fetch_all fs ([], None)) = Some b \<longrightarrow> from_feed True fs b)"
    using fetch_all_sources [of fs fs "([], None)"] by simp
  have c: "\<forall>c\<in>set (fst (fetch_all fs ([], None))). \<not> is_briefing_feed (tags c)"
  proof
    fix c assume "c \<in> set (fst (fetch_all fs ([], None)))"
    then have "from_feed False fs c" using b by blast
    then obtain fc ts r where "fc_tags fc = Some ts" "\<not> is_briefing_feed ts" "convert fc r = Inr c"
      unfolding from_feed_def by auto
    then show "\<not> is_briefing_feed (tags c)" using convert_tags [of fc r c] by simp
  qed
  show ?thesis using a b c unfolding from_feed_def by simp
qed











lemma briefing_fetch:
  "fetch_all (zip (feeds briefing_config) briefing_fetched) ([], None)
  = ([feed_item sky_feed ''Mars rover'' 40 777600000, feed_item sky_feed ''Venus'' 20 777600000,
      feed_item sky_feed ''Jupiter'' 25 777600000, feed_item sky_feed ''Saturn'' 30 777600000,
      feed_item sky_feed ''Pluto'' 10 777600000],
     Some (feed_item world_feed ''World crime brief'' 10 857000000))"
  by code_simp







theorem first_five_only_and_briefing_feeds_apart_witness:
  "run False (\<lambda>k. 864000000) briefing_config sample_heap briefing_fetched
     = run False (\<lambda>k. 864000000) briefing_config sample_heap (map (map_option (take 5)) briefing_fetched)
   \<and> fst (fetch_all (zip (feeds briefing_config) briefing_fetched) ([], None))
     = [feed_item sky_feed ''Mars rover'' 40 777600000, feed_item sky_feed ''Venus'' 20 777600000,
        feed_item sky_feed ''Jupiter'' 25 777600000, feed_item sky_feed ''Saturn'' 30 777600000,
        feed_item sky_feed ''Pluto'' 10 777600000]
   \<and> (\<exists>fc raw ts r. (fc, Some raw) \<in> set (zip (feeds briefing_config) briefing_fetched)
         \<and> fc_tags fc = Some ts \<and> \<not> is_briefing_feed ts \<and> r \<in> set (take 5 raw)
         \<and> convert fc r = Inr (feed_item sky_feed ''Mars rover'' 40 777600000))
   \<and> snd (fetch_all (zip (feeds briefing_config) briefing_fetched) ([], None))
     = Some (feed_item world_feed ''World crime brief'' 10 857000000)
   \<and> (\<exists>fc raw ts r. (fc, Some raw) \<in> set (zip (feeds briefing_config) briefing_fetched)
         \<and> fc_tags fc = Some ts \<and> is_briefing_feed ts \<and> r \<in> set (take 5 raw)
         \<and> convert fc r = Inr (feed_item world_feed ''World crime brief'' 10 857000000))"
proof -
  let ?fs = "zip (feeds briefing_config) briefing_fetched"
  note th = first_five_only_and_briefing_feeds_apart
      [of False "\<lambda>k. 864000000" briefing_config sample_heap briefing_fetched ?fs]
  have m: "feed_item sky_feed ''Mars rover'' 40 777600000 \<in> set (fst (fetch_all ?fs ([], None)))"
    by (simp add: briefing_fetch)
  have s: "snd (fetch_all ?fs ([], None)) = Some (feed_item world_feed ''World crime brief'' 10 857000000)"
    by (simp add: briefing_fetch)
  have f: "fst (fetch_all ?fs ([], None))
     = [feed_item sky_feed ''Mars rover'' 40 777600000, feed_item sky_feed ''Venus'' 20 777600000,
        feed_item sky_feed ''Jupiter'' 25 777600000, feed_item sky_feed ''Saturn'' 30 777600000,
        feed_item sky_feed ''Pluto'' 10 777600000]"
    by (simp add: briefing_fetch)
  show ?thesis
    using th [THEN conjunct1] th [THEN conjunct2, THEN conjunct1, rule_format, OF m]
      th [THEN conjunct2, THEN conjunct2, THEN conjunct1, rule_format, OF s] f s
    by blast
qed

section \<open>The clock\<close>

lemma score_from_frozen:
  "(\<forall>i<length cs. clock (k + i) = now)
     \<Longrightarrow> score_from rl thu clock k cs = map (\<lambda>c. with_score c (score_item rl thu now c)) cs"
proof (induction cs arbitrary: k)
  case Nil
  then show ?case by simp
next
  case (Cons c cs)
  have h: "clock k = now" using Cons.prems by force
  have "\<forall>i<length cs. clock (Suc k + i) = now"
    using Cons.prems by force
  then show ?case using Cons.IH [of "Suc k"] h by simp
qed

lemma scoredItems_frozen:
  "(\<forall>i<length cs. clock i = now) \<Longrightarrow> scoredItems h r thu clock cs = scoredItems_at h r thu now cs"
  using score_from_frozen [of cs clock 0 now]
  by (simp add: scoredItems_def scoredItems_at_def split: option.splits)

text \<open>
  Claim C7, as amended. The script reads the clock anew in every scoring call and once
  more for the briefing's freshness. If all those readings return the same instant, the
  run is the run that captures that instant once and hands it to every age computation,
  and any two runs on the same inputs whose readings all return that instant give the
  same result.
\<close>

theorem frozen_clock_run_is_threaded_run:
  assumes "\<forall>k\<le>length (fst (fetch_all (zip (feeds cfg) fetched) ([], None))). clock k = now"
  shows "run thu clock cfg h fetched = run_at thu now cfg h fetched
     \<and> (\<forall>clock'. (\<forall>k\<le>length (fst (fetch_all (zip (feeds cfg) fetched) ([], None))). clock' k = now)
           \<longrightarrow> run thu clock' cfg h fetched = run thu clock cfg h fetched)"
proof -
  obtain cands nb where f: "fetch_all (zip (feeds cfg) fetched) ([], None) = (cands, nb)"
    by (cases "fetch_all (zip (feeds cfg) fetched) ([], None)")
  have r: "\<And>c. \<forall>k\<le>length cands. c k = now \<Longrightarrow> run thu c cfg h fetched = run_at thu now cfg h fetched"
  proof -
    fix c :: "nat \<Rightarrow> rat"
    assume a: "\<forall>k\<le>length cands. c k = now"
    have s: "\<And>h' r. scoredItems h' r thu c cands = scoredItems_at h' r thu now cands"
      using a by (simp add: scoredItems_frozen)
    have n: "c (length cands) = now" using a by simp
    show "run thu c cfg h fetched = run_at thu now cfg h fetched"
      by (simp add: run_def run_at_def f s n)
  qed
  show ?thesis using r assms f by simp
qed

lemma two_fetch:
  "fetch_all (zip (feeds sample_config) two_fetched) ([], None)
     = ([sky_item ''Mars rover'' 40 777600000, sky_item ''Venus'' 20 777600000], None)"
  by code_simp

lemma two_scored_frozen:
  "scoredItems sample_heap 5 False frozen_clock
      [sky_item ''Mars rover'' 40 777600000, sky_item ''Venus'' 20 777600000]
     = Some [with_score (sky_item ''Mars rover'' 40 777600000) 35,
             with_score (sky_item ''Venus'' 20 777600000) 20]"
  by code_simp

lemma two_scored_ticking:
  "scoredItems sample_heap 5 False ticking_clock
      [sky_item ''Mars rover'' 40 777600000, sky_item ''Venus'' 20 777600000]
     = Some [with_score (sky_item ''Mars rover'' 40 777600000) 35]"
  by code_simp

lemma two_select_frozen:
  "select 1209599999 70 None [with_score (sky_item ''Mars rover'' 40 777600000) 35,
             with_score (sky_item ''Venus'' 20 777600000) 20]
     = ([Scored (with_score (sky_item ''Mars rover'' 40 777600000) 35),
         Scored (with_score (sky_item ''Venus'' 20 777600000) 20)], Fin 60)"
  by code_simp

lemma two_select_ticking:
  "select 1209600001 70 None [with_score (sky_item ''Mars rover'' 40 777600000) 35]
     = ([Scored (with_score (sky_item ''Mars rover'' 40 777600000) 35)], Fin 40)"
  by code_simp

lemma two_run_frozen:
  "run False frozen_clock sample_config sample_heap two_fetched
     = Some (([Scored (with_score (sky_item ''Mars rover'' 40 777600000) 35),
               Scored (with_score (sky_item ''Venus'' 20 777600000) 20)], Fin 60), sample_heap)"
proof -
  have t: "targetDuration_of sample_config = 70" "rules sample_config = 5"
    by (simp_all add: targetDuration_of_def sample_config_def)
  have c: "frozen_clock (Suc (Suc 0)) = 1209599999" by (simp add: frozen_clock_def)
  show ?thesis
    by (simp add: run_def build_rules_def two_fetch two_scored_frozen two_select_frozen t c)
qed

text \<open>
  Claim C7 as stated fails: no instant is captured once. Two runs on the same inputs whose
  clocks agree on the first reading give different selections when one clock has moved on
  at the second candidate's scoring call: that candidate is five days old by then, loses
  50 points instead of gaining 10, and is discarded.
\<close>

theorem clock_read_per_candidate_counterexample:
  "ticking_clock 0 = frozen_clock 0
   \<and> run False frozen_clock sample_config sample_heap two_fetched
     = Some (([Scored (with_score (sky_item ''Mars rover'' 40 777600000) 35),
               Scored (with_score (sky_item ''Venus'' 20 777600000) 20)], Fin 60), sample_heap)
   \<and> run False ticking_clock sample_config sample_heap two_fetched
     = Some (([Scored (with_score (sky_item ''Mars rover'' 40 777600000) 35)], Fin 40), sample_heap)"
proof -
  have t: "targetDuration_of sample_config = 70" "rules sample_config = 5"
    by (simp_all add: targetDuration_of_def sample_config_def)
  have c: "ticking_clock (Suc (Suc 0)) = 1209600001" "ticking_clock 0 = frozen_clock 0"
    by (simp_all add: ticking_clock_def frozen_clock_def)
  have "run False ticking_clock sample_config sample_heap two_fetched
     = Some (([Scored (with_score (sky_item ''Mars rover'' 40 777600000) 35)], Fin 40), sample_heap)"
    by (simp add: run_def build_rules_def two_fetch two_scored_ticking two_select_ticking t c)
  then show ?thesis using two_run_frozen c(2) by simp
qed

theorem frozen_clock_run_is_threaded_run_witness:
  "length (fst (fetch_all (zip (feeds sample_config) two_fetched) ([], None))) = 2
   \<and> list_all (\<lambda>k. frozen_clock k = 1209599999) [0, 1, 2]
   \<and> run False frozen_clock sample_config sample_heap two_fetched
     = run_at False 1209599999 sample_config sample_heap two_fetched
   \<and> run_at False 1209599999 sample_config sample_heap two_fetched
     = Some (([Scored (with_score (sky_item ''Mars rover'' 40 777600000) 35),
               Scored (with_score (sky_item ''Venus'' 20 777600000) 20)], Fin 60), sample_heap)"
proof -
  have h: "\<forall>k\<le>length (fst (fetch_all (zip (feeds sample_config) two_fetched) ([], None))).
       frozen_clock k = 1209599999"
    by (simp add: frozen_clock_def)
  have e: "run False frozen_clock sample_config sample_heap two_fetched
      = run_at False 1209599999 sample_config sample_heap two_fetched"
    using frozen_clock_run_is_threaded_run [OF h, of False sample_heap] by blast
  have l: "length (fst (fetch_all (zip (feeds sample_config) two_fetched) ([], None))) = 2"
    by (simp add: two_fetch)
  have c: "list_all (\<lambda>k. frozen_clock k = 1209599999) [0, 1, 2]"
    by (simp add: frozen_clock_def)
  show ?thesis using e l c two_run_frozen by simp
qed

section \<open>The rules object\<close>

lemma build_rules_not_thursday: "build_rules False cfg h = Some (rules cfg, h)"
  by (simp add: build_rules_def)

lemma build_rules_thursday:
  assumes "build_rules True cfg h = Some (r, h')"
  shows "\<exists>r0 boost dnk block dnb.
      objects h (rules cfg) = Some r0
      \<and> arrays h (boost_keywords r0) = Some boost
      \<and> arrays h (datenight_keywords r0) = Some dnk
      \<and> ((arrays h)(next_addr h \<mapsto> boost @ dnk)) (block_keywords r0) = Some block
      \<and> ((arrays h)(next_addr h \<mapsto> boost @ dnk)) (datenight_block r0) = Some dnb
      \<and> r = rules cfg
      \<and> h' = h\<lparr>arrays := (arrays h)(next_addr h \<mapsto> boost @ dnk, Suc (next_addr h) \<mapsto> block @ dnb),
               objects := (objects h)(rules cfg \<mapsto>
                  r0\<lparr>boost_keywords := next_addr h, block_keywords := Suc (next_addr h)\<rparr>),
               next_addr := Suc (Suc (next_addr h))\<rparr>"
proof -
  obtain r0 where r0: "objects h (rules cfg) = Some r0"
    using assms by (auto simp: build_rules_def split: Option.bind_splits)
  obtain boost where b: "arrays h (boost_keywords r0) = Some boost"
    using assms r0 by (auto simp: build_rules_def split: Option.bind_splits)
  obtain dnk where d: "arrays h (datenight_keywords r0) = Some dnk"
    using assms r0 b by (auto simp: build_rules_def split: Option.bind_splits)
  let ?ar = "(arrays h)(next_addr h \<mapsto> boost @ dnk)"
  obtain block where bl: "?ar (block_keywords r0) = Some block"
    using assms r0 b d
    by (cases "?ar (block_keywords r0)") (simp_all add: build_rules_def new_array_def)
  obtain dnb where db: "?ar (datenight_block r0) = Some dnb"
    using assms r0 b d bl
    by (cases "?ar (datenight_block r0)") (simp_all add: build_rules_def new_array_def)
  have "r = rules cfg \<and> h' = h\<lparr>arrays := ?ar(Suc (next_addr h) \<mapsto> block @ dnb),
               objects := (objects h)(rules cfg \<mapsto>
                  r0\<lparr>boost_keywords := next_addr h, block_keywords := Suc (next_addr h)\<rparr>),
               next_addr := Suc (Suc (next_addr h))\<rparr>"
    using assms r0 b d bl db by (auto simp add: build_rules_def new_array_def)
  then show ?thesis using r0 b d bl db by blast
qed

text \<open>
  Claim C2, as amended. In a well-formed store, when lines 63-69 do not throw: the rules
  the run uses are the configuration's own rules object (the same reference, not a copy);
  every array of the store keeps its contents, so the original keyword lists are
  untouched; no other object changes; on a day other than Thursday nothing changes at
  all; and on a Thursday the \<open>boost_keywords\<close> and \<open>block_keywords\<close> fields of that object
  are overwritten with two new arrays that hold the base list followed by the date-night
  list.
\<close>

theorem date_night_merge_overwrites_fields_keeps_arrays:
  assumes "heap_wf h" and "build_rules thu cfg h = Some (r, h')"
  shows "r = rules cfg
     \<and> (\<forall>a xs. arrays h a = Some xs \<longrightarrow> arrays h' a = Some xs)
     \<and> (\<forall>a. a \<noteq> rules cfg \<longrightarrow> objects h' a = objects h a)
     \<and> (\<not> thu \<longrightarrow> h' = h)
     \<and> (thu \<longrightarrow>
          (\<exists>r0 a1 a2 boost dnk block dnb.
              objects h (rules cfg) = Some r0
              \<and> arrays h (boost_keywords r0) = Some boost
              \<and> arrays h (datenight_keywords r0) = Some dnk
              \<and> arrays h (block_keywords r0) = Some block
              \<and> arrays h (datenight_block r0) = Some dnb
              \<and> objects h' (rules cfg) = Some (r0\<lparr>boost_keywords := a1, block_keywords := a2\<rparr>)
              \<and> arrays h a1 = None \<and> arrays h a2 = None
              \<and> arrays h' a1 = Some (boost @ dnk) \<and> arrays h' a2 = Some (block @ dnb)))"
proof (cases thu)
  case False
  then show ?thesis using assms(2) by (simp add: build_rules_not_thursday)
next
  case True
  obtain r0 boost dnk block dnb where
    r0: "objects h (rules cfg) = Some r0"
    and b: "arrays h (boost_keywords r0) = Some boost"
    and d: "arrays h (datenight_keywords r0) = Some dnk"
    and bl: "((arrays h)(next_addr h \<mapsto> boost @ dnk)) (block_keywords r0) = Some block"
    and db: "((arrays h)(next_addr h \<mapsto> boost @ dnk)) (datenight_block r0) = Some dnb"
    and r: "r = rules cfg"
    and h': "h' = h\<lparr>arrays := (arrays h)(next_addr h \<mapsto> boost @ dnk, Suc (next_addr h) \<mapsto> block @ dnb),
               objects := (objects h)(rules cfg \<mapsto>
                  r0\<lparr>boost_keywords := next_addr h, block_keywords := Suc (next_addr h)\<rparr>),
               next_addr := Suc (Suc (next_addr h))\<rparr>"
    using build_rules_thursday [of cfg h r h'] assms(2) True by auto
  have lt: "block_keywords r0 < next_addr h" "datenight_block r0 < next_addr h"
    using assms(1) r0 unfolding heap_wf_def by blast+
  have bl': "arrays h (block_keywords r0) = Some block" using bl lt by (simp split: if_splits)
  have db': "arrays h (datenight_block r0) = Some dnb" using db lt by (simp split: if_splits)
  have old: "\<And>a xs. arrays h a = Some xs \<Longrightarrow> a < next_addr h"
    using assms(1) unfolding heap_wf_def by blast
  have fresh1: "arrays h (next_addr h) = None"
    using old [of "next_addr h"] by (cases "arrays h (next_addr h)") auto
  have fresh2: "arrays h (Suc (next_addr h)) = None"
    using old [of "Suc (next_addr h)"] by (cases "arrays h (Suc (next_addr h))") auto
  have keep: "\<forall>a xs. arrays h a = Some xs \<longrightarrow> arrays h' a = Some xs"
    using old h' by fastforce
  have others: "\<forall>a. a \<noteq> rules cfg \<longrightarrow> objects h' a = objects h a"
    using h' by simp
  have ob: "objects h' (rules cfg)
      = Some (r0\<lparr>boost_keywords := next_addr h, block_keywords := Suc (next_addr h)\<rparr>)"
    using h' by simp
  have n1: "arrays h' (next_addr h) = Some (boost @ dnk)" using h' by simp
  have n2: "arrays h' (Suc (next_addr h)) = Some (block @ dnb)" using h' by simp
  have ex: "\<exists>r0 a1 a2 boost dnk block dnb.
              objects h (rules cfg) = Some r0
              \<and> arrays h (boost_keywords r0) = Some boost
              \<and> arrays h (datenight_keywords r0) = Some dnk
              \<and> arrays h (block_keywords r0) = Some block
              \<and> arrays h (datenight_block r0) = Some dnb
              \<and> objects h' (rules cfg) = Some (r0\<lparr>boost_keywords := a1, block_keywords := a2\<rparr>)
              \<and> arrays h a1 = None \<and> arrays h a2 = None
              \<and> arrays h' a1 = Some (boost @ dnk) \<and> arrays h' a2 = Some (block @ dnb)"
    using r0 b d bl' db' ob fresh1 fresh2 n1 n2 by blast
  show ?thesis using r keep others True ex by blast
qed

lemma sample_heap_wf: "heap_wf sample_heap"
  by (auto simp: heap_wf_def sample_heap_def split: if_splits)

text \<open>
  Claim C2 as stated fails: the base rules object is written to. Read through
  \<open>config.rules\<close>, the boost and block lists are the base lists before the merge and the
  extended lists after it, and the reference the run uses is \<open>config.rules\<close> itself.
\<close>

theorem base_rules_overwritten_counterexample:
  "read_rules sample_heap (rules sample_config) = Some ([''Mars''], [''Ada''], [''crime''])
   \<and> config_lists_after True sample_config sample_heap
       = Some ([''Mars'', ''love''], [''Ada''], [''crime'', ''work''])
   \<and> map_option fst (build_rules True sample_config sample_heap) = Some (rules sample_config)"
  by (simp add: config_lists_after_def build_rules_def new_array_def read_rules_def
      sample_heap_def sample_config_def)

theorem date_night_merge_overwrites_fields_keeps_arrays_witness:
  "heap_wf sample_heap
   \<and> (\<exists>r h'. build_rules True sample_config sample_heap = Some (r, h')
         \<and> r = rules sample_config
         \<and> arrays h' 0 = Some [''Mars''] \<and> arrays h' 2 = Some [''crime'']
         \<and> read_rules h' r = Some ([''Mars'', ''love''], [''Ada''], [''crime'', ''work'']))"
proof -
  obtain r h' where b: "build_rules True sample_config sample_heap = Some (r, h')"
    by (simp add: build_rules_def new_array_def sample_heap_def sample_config_def)
  note th = date_night_merge_overwrites_fields_keeps_arrays [OF sample_heap_wf b]
  have r: "r = rules sample_config" using th by blast
  have keep: "\<And>a xs. arrays sample_heap a = Some xs \<Longrightarrow> arrays h' a = Some xs"
    using th by blast
  have k0: "arrays h' 0 = Some [''Mars'']" by (rule keep) (simp add: sample_heap_def)
  have k1: "arrays h' 1 = Some [''Ada'']" by (rule keep) (simp add: sample_heap_def)
  have k2: "arrays h' 2 = Some [''crime'']" by (rule keep) (simp add: sample_heap_def)
  obtain r0 a1 a2 boost dnk block dnb where
    o: "objects sample_heap (rules sample_config) = Some r0"
    and l: "arrays sample_heap (boost_keywords r0) = Some boost"
       "arrays sample_heap (datenight_keywords r0) = Some dnk"
       "arrays sample_heap (block_keywords r0) = Some block"
       "arrays sample_heap (datenight_block r0) = Some dnb"
    and o': "objects h' (rules sample_config) = Some (r0\<lparr>boost_keywords := a1, block_keywords := a2\<rparr>)"
    and n: "arrays h' a1 = Some (boost @ dnk)" "arrays h' a2 = Some (block @ dnb)"
    using th by blast
  have r0: "r0 = \<lparr>boost_keywords = 0, boost_guests = 1, block_keywords = 2,
                        datenight_keywords = 3, datenight_block = 4\<rparr>"
    using o by (simp add: sample_heap_def sample_config_def)
  have v: "boost = [''Mars'']" "dnk = [''love'']" "block = [''crime'']" "dnb = [''work'']"
    using l unfolding r0 by (simp_all add: sample_heap_def)
  have "read_rules h' r = Some ([''Mars'', ''love''], [''Ada''], [''crime'', ''work''])"
    using o' n k1 unfolding r r0 v by (simp add: read_rules_def)
  then show ?thesis using sample_heap_wf b r k0 k2 by blast
qed

section \<open>parseDuration: the cases\<close>

lemma in_set_dropWhile: "x \<in> set xs \<Longrightarrow> \<not> P x \<Longrightarrow> x \<in> set (dropWhile P xs)"
  by (induction xs) auto

lemma colon_facts:
  "\<not> is_ws CHR '':''" "\<not> is_digit CHR '':''" "char_val CHR '':'' = None"
  "\<not> is_radix_digit r CHR '':''"
  by (simp_all add: is_ws_def is_digit_def char_val_def is_radix_digit_def)

lemma colon_in_trim: "CHR '':'' \<in> set s \<Longrightarrow> CHR '':'' \<in> set (trim s)"
  unfolding trim_def using in_set_dropWhile [of "CHR '':''" _ is_ws] colon_facts(1)
  by (metis set_rev)

lemma colon_in_strip_sign: "CHR '':'' \<in> set s \<Longrightarrow> CHR '':'' \<in> set (snd (strip_sign s))"
  by (cases s) (auto simp: strip_sign_def)

lemma nondecimal_colon: "CHR '':'' \<in> set ds \<Longrightarrow> nondecimal r ds = NaN"
  using colon_facts(4) by (auto simp: nondecimal_def list_all_iff)

lemma radix_prefix_colon:
  "radix_prefix lo up t \<Longrightarrow> lo \<noteq> CHR '':'' \<Longrightarrow> up \<noteq> CHR '':'' \<Longrightarrow> CHR '':'' \<in> set t
     \<Longrightarrow> CHR '':'' \<in> set (drop 2 t)"
  by (cases t; cases "tl t") (auto simp: radix_prefix_def)

lemma exponent_part_colon: "CHR '':'' \<in> set s \<Longrightarrow> exponent_part s = None"
proof -
  assume c: "CHR '':'' \<in> set s"
  then obtain a r where s: "s = a # r" by (cases s) auto
  show ?thesis
  proof (cases "a = CHR ''e'' \<or> a = CHR ''E''")
    case False
    then show ?thesis using s by (simp add: exponent_part_def)
  next
    case True
    then have "CHR '':'' \<in> set r" using c s by auto
    then have "CHR '':'' \<in> set (snd (strip_sign r))" by (rule colon_in_strip_sign)
    then have "\<not> list_all is_digit (snd (strip_sign r))"
      using colon_facts(2) by (auto simp: list_all_iff)
    then show ?thesis using s True by (auto simp: exponent_part_def split: prod.splits)
  qed
qed

lemma unsigned_decimal_colon: "CHR '':'' \<in> set u \<Longrightarrow> unsigned_decimal u = NaN"
proof -
  assume c: "CHR '':'' \<in> set u"
  have ninf: "u \<noteq> ''Infinity''" using c by auto
  have r1: "CHR '':'' \<in> set (dropWhile is_digit u)"
    using c colon_facts(2) by (rule in_set_dropWhile)
  let ?r1 = "dropWhile is_digit u"
  let ?dot = "?r1 \<noteq> [] \<and> hd ?r1 = CHR ''.''"
  let ?r2 = "if ?dot then dropWhile is_digit (tl ?r1) else ?r1"
  have "CHR '':'' \<in> set ?r2"
  proof (cases ?dot)
    case True
    then have "CHR '':'' \<in> set (tl ?r1)" using r1 by (cases ?r1) auto
    then show ?thesis using True colon_facts(2) by (simp add: in_set_dropWhile)
  next
    case False
    then show ?thesis using r1 by auto
  qed
  then have "exponent_part ?r2 = None" by (rule exponent_part_colon)
  then show ?thesis using ninf by (simp add: unsigned_decimal_def Let_def)
qed

lemma str_to_number_colon: "CHR '':'' \<in> set s \<Longrightarrow> str_to_number s = NaN"
proof -
  assume "CHR '':'' \<in> set s"
  then have t: "CHR '':'' \<in> set (trim s)" by (rule colon_in_trim)
  then have ne: "trim s \<noteq> []" by auto
  have nd: "\<And>lo up. radix_prefix lo up (trim s) \<Longrightarrow> lo \<noteq> CHR '':'' \<Longrightarrow> up \<noteq> CHR '':''
      \<Longrightarrow> nondecimal r (drop 2 (trim s)) = NaN" for r
    using radix_prefix_colon [OF _ _ _ t] nondecimal_colon by blast
  have ud: "unsigned_decimal (snd (strip_sign (trim s))) = NaN"
    using colon_in_strip_sign [OF t] by (rule unsigned_decimal_colon)
  show ?thesis
    using ne nd ud by (auto simp: str_to_number_def Let_def split: prod.splits)
qed











lemma split_on_no_sep: "c \<notin> set s \<Longrightarrow> split_on c s = [s]"
  by (induction s) auto

lemma split_on_ne: "split_on c s \<noteq> []"
  by (induction s) (auto split: list.splits)




lemma parseDuration_parts:
  "s \<noteq> [] \<Longrightarrow> str_to_number s = NaN \<Longrightarrow>
   parseDuration (JString s) =
     (let parts = map str_to_number (split_on CHR '':'' s) in
      if length parts = 3
        then Inr (num_add (num_add (num_times (parts ! 0) 60) (parts ! 1)) (num_div (parts ! 2) 60))
      else if length parts = 2 then Inr (num_add (parts ! 0) (num_div (parts ! 1) 60))
      else Inr (Fin 0))"
  by (simp add: parseDuration_def isNaN_def)



lemma num_add_NaN: "num_add a NaN = NaN" "num_add NaN a = NaN"
  by (cases a; simp)+

lemma parseDuration_part_NaN:
  assumes "length (split_on CHR '':'' s) = 2 \<or> length (split_on CHR '':'' s) = 3"
    and "\<exists>p\<in>set (split_on CHR '':'' s). str_to_number p = NaN"
  shows "parseDuration (JString s) = Inr NaN"
proof -
  have c: "CHR '':'' \<in> set s"
    using assms(1) split_on_no_sep [of "CHR '':''" s] by (cases "CHR '':'' \<in> set s") auto
  then have ne: "s \<noteq> []" by auto
  have n: "str_to_number s = NaN" using c by (rule str_to_number_colon)
  let ?ps = "split_on CHR '':'' s"
  show ?thesis
  proof (cases "length ?ps = 3")
    case True
    then obtain a b d where ps: "?ps = [a, b, d]"
      by (cases ?ps; cases "tl ?ps"; cases "tl (tl ?ps)") auto
    have "str_to_number a = NaN \<or> str_to_number b = NaN \<or> str_to_number d = NaN"
      using assms(2) ps by auto
    then show ?thesis
      using parseDuration_parts [OF ne n] ps
      by (cases "str_to_number a"; cases "str_to_number b"; cases "str_to_number d") auto
  next
    case False
    then have "length ?ps = 2" using assms(1) by simp
    then obtain a b where ps: "?ps = [a, b]"
      by (cases ?ps; cases "tl ?ps") auto
    have "str_to_number a = NaN \<or> str_to_number b = NaN"
      using assms(2) ps by auto
    then show ?thesis
      using parseDuration_parts [OF ne n] ps
      by (cases "str_to_number a"; cases "str_to_number b") auto
  qed
qed










end
